theory Spec2Isabelle
  imports Main
begin

section \<open>JavaScript string and array primitives used by src/index.ts\<close>

text \<open>
  A JavaScript string is modelled as a \<^typ>\<open>string\<close>, one \<^typ>\<open>char\<close> per byte of its UTF-8
  form. Every needle the program searches for (the dot, the newline, the apostrophe, the scheme
  prefixes, the sniffing markers) is ASCII, and an ASCII byte never occurs inside a multi-byte
  UTF-8 sequence, so splitting, prefix tests and substring tests agree with the UTF-16 view.
\<close>

definition startsWith :: "string \<Rightarrow> string \<Rightarrow> bool" where
  \<comment> \<open>\<^verbatim>\<open>s.startsWith(p)\<close>\<close>
  "startsWith s p = (take (length p) s = p)"

fun includes_str :: "string \<Rightarrow> string \<Rightarrow> bool" where
  \<comment> \<open>\<^verbatim>\<open>s.includes(p)\<close>: \<open>p\<close> occurs in \<open>s\<close> as a contiguous substring\<close>
  "includes_str [] p = (p = [])"
| "includes_str (c # cs) p = (startsWith (c # cs) p \<or> includes_str cs p)"

fun js_split :: "char \<Rightarrow> string \<Rightarrow> string list" where
  \<comment> \<open>\<^verbatim>\<open>s.split(sep)\<close> for a one-character separator; the empty string gives one empty part\<close>
  "js_split sep [] = [[]]"
| "js_split sep (c # cs) =
     (if c = sep then [] # js_split sep cs
      else (case js_split sep cs of
              [] \<Rightarrow> [[c]]
            | p # ps \<Rightarrow> (c # p) # ps))"

fun js_join :: "char \<Rightarrow> string list \<Rightarrow> string" where
  \<comment> \<open>\<^verbatim>\<open>parts.join(sep)\<close> for a one-character separator\<close>
  "js_join sep [] = []"
| "js_join sep [x] = x"
| "js_join sep (x # y # ys) = x @ sep # js_join sep (y # ys)"

definition js_index :: "nat \<Rightarrow> int \<Rightarrow> nat" where
  \<comment> \<open>the relative index of \<^verbatim>\<open>Array.prototype.slice\<close>: a negative index counts from the end,
      and the result is clamped to \<open>0..n\<close>\<close>
  "js_index n i = (if i < 0 then nat (max (int n + i) 0) else nat (min i (int n)))"

definition js_slice :: "int \<Rightarrow> int option \<Rightarrow> 'a list \<Rightarrow> 'a list" where
  \<comment> \<open>\<^verbatim>\<open>xs.slice(start, end)\<close> on integer arguments; \<open>None\<close> is an omitted \<open>end\<close>\<close>
  "js_slice start end xs =
     (let n = length xs;
          k = js_index n start;
          e = (case end of None \<Rightarrow> n | Some j \<Rightarrow> js_index n j)
      in take (e - k) (drop k xs))"

definition lower_char :: "char \<Rightarrow> char" where
  "lower_char c =
     (case map_of (zip ''ABCDEFGHIJKLMNOPQRSTUVWXYZ'' ''abcdefghijklmnopqrstuvwxyz'') c of
        None \<Rightarrow> c
      | Some l \<Rightarrow> l)"

definition toLowerCase :: "string \<Rightarrow> string" where
  \<comment> \<open>\<^verbatim>\<open>s.toLowerCase()\<close> on the ASCII letters; other bytes are left as they are\<close>
  "toLowerCase s = map lower_char s"

fun replace_first :: "string \<Rightarrow> string \<Rightarrow> string \<Rightarrow> string" where
  \<comment> \<open>\<^verbatim>\<open>s.replace(pat, rep)\<close> with a string pattern: the first occurrence only\<close>
  "replace_first pat rep [] = (if pat = [] then rep else [])"
| "replace_first pat rep (c # cs) =
     (if startsWith (c # cs) pat then rep @ drop (length pat) (c # cs)
      else c # replace_first pat rep cs)"

definition strip_id_or_idx :: "string \<Rightarrow> string" where
  \<comment> \<open>\<^verbatim>\<open>id.replace(/^(id:|idx:)/, '')\<close>\<close>
  "strip_id_or_idx s =
     (if startsWith s ''id:'' then drop 3 s
      else if startsWith s ''idx:'' then drop 4 s
      else s)"

definition strip_id :: "string \<Rightarrow> string" where
  \<comment> \<open>\<^verbatim>\<open>s.replace(/^id:/, '')\<close>\<close>
  "strip_id s = (if startsWith s ''id:'' then drop 3 s else s)"

fun digits :: "nat \<Rightarrow> string" where
  "digits n =
     (if n < 10 then [''0123456789'' ! n]
      else digits (n div 10) @ [''0123456789'' ! (n mod 10)])"

definition show_number :: "int \<Rightarrow> string" where
  \<comment> \<open>how a template literal prints an integer-valued number\<close>
  "show_number i = (if i < 0 then CHR ''-'' # digits (nat (- i)) else digits (nat i))"

section \<open>Errors, process state and the outside world\<close>

datatype ErrorCode = InvalidParams | InternalError | MethodNotFound

datatype McpError = McpError ErrorCode string

text \<open>
  The module-level variable \<^verbatim>\<open>currentNamespace\<close> (\<^verbatim>\<open>string | null\<close>) is the only mutable state of
  the program. The state also logs every outbound call made through the viem client, in order,
  so that "no lookup was made" is a statement about the state.
\<close>

datatype netcall = GetEnsResolver string | ReadContract string string string

record state =
  currentNamespace :: "string option"
  calls :: "netcall list"

text \<open>
  The collaborators that are not code of this repository are parameters: the environment
  variable, viem's \<^verbatim>\<open>normalize\<close> and \<^verbatim>\<open>namehash\<close>, and the two reads of the public client. A
  result \<open>Inl msg\<close> is a thrown \<^verbatim>\<open>Error(msg)\<close>. The reads take the number of outbound calls made
  so far, so that the chain may answer differently at different times.
\<close>

record env =
  RPC_URL :: "string option"
  ens_normalize :: "string \<Rightarrow> string + string"
  namehash :: "string \<Rightarrow> string"
  getEnsResolver :: "nat \<Rightarrow> string \<Rightarrow> string + string option"
  readContract :: "nat \<Rightarrow> string \<Rightarrow> string \<Rightarrow> string \<Rightarrow> string + string"

definition placeholder :: string where
  "placeholder = ''<YOUR-RPC-URL-HERE>''"

definition rpcUrl :: "env \<Rightarrow> string" where
  \<comment> \<open>\<^verbatim>\<open>process.env.RPC_URL || '<YOUR-RPC-URL-HERE>'\<close>: unset and empty both give the placeholder\<close>
  "rpcUrl E = (case RPC_URL E of
                 None \<Rightarrow> placeholder
               | Some u \<Rightarrow> if u = [] then placeholder else u)"

section \<open>The identifier pipeline\<close>

definition no_namespace_error :: McpError where
  "no_namespace_error =
     McpError InvalidParams ''No namespace set for shorthand ID. Use id_set_namespace first.''"

definition empty_id_error :: McpError where
  "empty_id_error = McpError InvalidParams ''Invalid ID format. Cannot be empty.''"

definition partsToEnsName :: "string list \<Rightarrow> McpError + string" where
  \<comment> \<open>lines 194 to 205 of \<^verbatim>\<open>idToEnsName\<close>, on the array \<^verbatim>\<open>parts\<close>\<close>
  "partsToEnsName parts =
     (if length parts < 1 then Inl empty_id_error
      else if length parts = 1 then Inr (hd parts @ ''.eth'')
      else Inr (js_join (CHR ''.'') (rev parts) @ ''.eth''))"

definition idToEnsName :: "state \<Rightarrow> string \<Rightarrow> McpError + string" where
  \<comment> \<open>\<^verbatim>\<open>!currentNamespace\<close> holds for \<^verbatim>\<open>null\<close> and for the empty string\<close>
  "idToEnsName s ident =
     (let cleanId = strip_id_or_idx ident in
      if startsWith cleanId [CHR 0x27] then
        (case currentNamespace s of
           None \<Rightarrow> Inl no_namespace_error
         | Some ns \<Rightarrow>
             if ns = [] then Inl no_namespace_error
             else
               let namespaceContent = strip_id ns;
                   resolvedId = namespaceContent @ ''.'' @ drop 1 cleanId
               in partsToEnsName (js_split (CHR ''.'') resolvedId))
      else partsToEnsName (js_split (CHR ''.'') cleanId))"

definition extractLines :: "string \<Rightarrow> int \<Rightarrow> string" where
  "extractLines content startLine =
     (if startLine = 0 then content
      else
        let lines = js_split (CHR 0x0A) content in
        if startLine \<ge> int (length lines) then []
        else js_join (CHR 0x0A) (js_slice startLine None lines))"

definition parseIdAndUpdateNamespace :: "string \<Rightarrow> state \<Rightarrow> state" where
  "parseIdAndUpdateNamespace ident s =
     (let cleanId = strip_id_or_idx ident in
      if \<not> startsWith cleanId [CHR 0x27] \<and> includes_str cleanId ''.'' then
        (let parts = js_split (CHR ''.'') cleanId in
         if length parts \<ge> 2
         then s\<lparr>currentNamespace := Some (js_join (CHR ''.'') (js_slice 0 (Some (-1)) parts))\<rparr>
         else s)
      else s)"

section \<open>The content fetcher\<close>

definition failed_to_resolve :: "string \<Rightarrow> string \<Rightarrow> McpError" where
  "failed_to_resolve ensName msg =
     McpError InternalError (''Failed to resolve ENS name '' @ ensName @ '': '' @ msg)"

definition no_resolver_error :: "string \<Rightarrow> McpError" where
  "no_resolver_error ensName =
     McpError InvalidParams (''No resolver found for ENS name: '' @ ensName)"

definition no_record_error :: "string \<Rightarrow> McpError" where
  "no_record_error ensName =
     McpError InvalidParams (''No root-context text record found for: '' @ ensName)"

definition resolveEnsTextRecord :: "env \<Rightarrow> string \<Rightarrow> state \<Rightarrow> (McpError + string) \<times> state" where
  \<comment> \<open>an \<^verbatim>\<open>McpError\<close> thrown inside the \<^verbatim>\<open>try\<close> is rethrown, anything else is wrapped\<close>
  "resolveEnsTextRecord E ensName s =
     (case ens_normalize E ensName of
        Inl msg \<Rightarrow> (Inl (failed_to_resolve ensName msg), s)
      | Inr normalizedName \<Rightarrow>
          let s1 = s\<lparr>calls := calls s @ [GetEnsResolver normalizedName]\<rparr> in
          (case getEnsResolver E (length (calls s)) normalizedName of
             Inl msg \<Rightarrow> (Inl (failed_to_resolve ensName msg), s1)
           | Inr None \<Rightarrow> (Inl (no_resolver_error ensName), s1)
           | Inr (Some resolverAddress) \<Rightarrow>
               if resolverAddress = [] then (Inl (no_resolver_error ensName), s1)
               else
                 let node = namehash E normalizedName;
                     s2 = s1\<lparr>calls := calls s1 @ [ReadContract resolverAddress node ''root-context'']\<rparr>
                 in (case readContract E (length (calls s1)) resolverAddress node ''root-context'' of
                       Inl msg \<Rightarrow> (Inl (failed_to_resolve ensName msg), s2)
                     | Inr textRecord \<Rightarrow>
                         if textRecord = [] then (Inl (no_record_error ensName), s2)
                         else (Inr textRecord, s2))))"

section \<open>The tool handlers\<close>

record tool_args =
  arg_id :: string
  arg_start_line :: "int option"

definition rpc_error :: McpError where
  "rpc_error = McpError InvalidParams
     (''Please set your own RPC_URL.\<newline>\<newline>'' @
      ''Get a free API key from:\<newline>'' @
      [CHR 0xE2, CHR 0x80, CHR 0xA2] @ '' Alchemy: https://alchemy.com\<newline>'' @
      [CHR 0xE2, CHR 0x80, CHR 0xA2] @ '' Infura: https://infura.io\<newline>'' @
      [CHR 0xE2, CHR 0x80, CHR 0xA2] @ '' QuickNode: https://quicknode.com\<newline>\<newline>'' @
      ''Then update your MCP server configuration with:\<newline>'' @
      [CHR 0x22] @ ''env'' @ [CHR 0x22] @ '': { '' @ [CHR 0x22] @ ''RPC_URL'' @ [CHR 0x22] @ '': '' @
      [CHR 0x22] @ ''https://eth-mainnet.g.alchemy.com/v2/YOUR_API_KEY'' @ [CHR 0x22] @ '' }'')"

definition prefix_error :: McpError where
  "prefix_error = McpError InvalidParams ''ID must start with 'id:' or 'idx:' prefix''"

definition id_response :: "string \<Rightarrow> string \<Rightarrow> int \<Rightarrow> string \<Rightarrow> string" where
  \<comment> \<open>the template literal of \<^verbatim>\<open>handleIdTool\<close>\<close>
  "id_response ident ensName start_line finalContent =
     ''--- ID Metadata ---\<newline>ID: '' @ ident @
     ''\<newline>ENS Name: '' @ ensName @
     ''\<newline>Source: ENS Text Record (root-context)\<newline>Start Line: '' @ show_number start_line @
     ''\<newline>\<newline>--- Content ---\<newline>'' @ finalContent"

definition handleIdTool :: "env \<Rightarrow> tool_args \<Rightarrow> state \<Rightarrow> (McpError + string) \<times> state" where
  "handleIdTool E a s =
     (if rpcUrl E = placeholder then (Inl rpc_error, s)
      else
        let ident = arg_id a;
            start_line = (case arg_start_line a of None \<Rightarrow> 0 | Some n \<Rightarrow> n)
        in
        if \<not> startsWith ident ''id:'' \<and> \<not> startsWith ident ''idx:'' then (Inl prefix_error, s)
        else
          let s1 = parseIdAndUpdateNamespace ident s in
          (case idToEnsName s1 ident of
             Inl e \<Rightarrow> (Inl e, s1)
           | Inr ensName \<Rightarrow>
               (case resolveEnsTextRecord E ensName s1 of
                  (Inl e, s2) \<Rightarrow> (Inl e, s2)
                | (Inr content, s2) \<Rightarrow>
                    let finalContent = extractLines content start_line
                    in (Inr (id_response ident ensName start_line finalContent), s2))))"

definition bulb :: string where
  \<comment> \<open>U+1F4A1, the light bulb that opens every suggestion\<close>
  "bulb = [CHR 0xF0, CHR 0x9F, CHR 0x92, CHR 0xA1]"

definition executionSuggestion :: "string \<Rightarrow> string" where
  \<comment> \<open>the \<^verbatim>\<open>if\<close> chain of \<^verbatim>\<open>handleIdxTool\<close> on \<^verbatim>\<open>lowerContent\<close>\<close>
  "executionSuggestion lowerContent =
     (if includes_str lowerContent ''html'' \<and> includes_str lowerContent ''javascript'' then
        bulb @ '' Suggested execution: `open filename.html` (replace with your desired filename)''
      else if includes_str lowerContent ''#!/bin/bash'' \<or> includes_str lowerContent ''bash''
              \<or> includes_str lowerContent ''shell'' then
        bulb @ '' Suggested execution: `bash filename.sh` (replace with your desired filename)''
      else if includes_str lowerContent ''python''
              \<or> includes_str lowerContent ''#!/usr/bin/env python'' then
        bulb @ '' Suggested execution: `python filename.py` (replace with your desired filename)''
      else if includes_str lowerContent ''node'' \<or> includes_str lowerContent ''javascript''
              \<or> includes_str lowerContent ''npm'' then
        bulb @ '' Suggested execution: `node filename.js` (replace with your desired filename)''
      else bulb @ '' Create the appropriate file and execute immediately'')"

definition handleIdxTool :: "env \<Rightarrow> tool_args \<Rightarrow> state \<Rightarrow> (McpError + string) \<times> state" where
  \<comment> \<open>the plain handler runs twice; the text the suggestion is chosen from is the whole text
      of the second response\<close>
  "handleIdxTool E a s =
     (case handleIdTool E a s of
        (Inl e, s1) \<Rightarrow> (Inl e, s1)
      | (Inr originalText, s1) \<Rightarrow>
          let modifiedText =
                replace_first ''--- ID Metadata ---'' ''--- IDX Execution Context ---'' originalText
          in (case handleIdTool E a s1 of
                (Inl e, s2) \<Rightarrow> (Inl e, s2)
              | (Inr contentText, s2) \<Rightarrow>
                  let lowerContent = toLowerCase contentText
                  in (Inr (modifiedText @
                           ''\<newline>\<newline>--- Execution Ready ---\<newline>'' @
                           ''This content is prepared for immediate execution.\<newline>'' @
                           executionSuggestion lowerContent), s2)))"

definition namespace_prefix_error :: McpError where
  "namespace_prefix_error = McpError InvalidParams ''Namespace must start with 'id:' prefix''"

definition namespace_unset_error :: McpError where
  "namespace_unset_error = McpError InvalidParams ''No namespace is currently set''"

definition handleSetNamespace :: "string \<Rightarrow> state \<Rightarrow> (McpError + string) \<times> state" where
  "handleSetNamespace namespace s =
     (if \<not> startsWith namespace ''id:'' then (Inl namespace_prefix_error, s)
      else
        let cleanNamespace = strip_id namespace
        in (Inr (''Namespace set to: '' @ namespace), s\<lparr>currentNamespace := Some cleanNamespace\<rparr>))"

definition handleGetNamespace :: "state \<Rightarrow> (McpError + string) \<times> state" where
  \<comment> \<open>\<^verbatim>\<open>!currentNamespace\<close> holds for \<^verbatim>\<open>null\<close> and for the empty string\<close>
  "handleGetNamespace s =
     (case currentNamespace s of
        None \<Rightarrow> (Inl namespace_unset_error, s)
      | Some ns \<Rightarrow>
          if ns = [] then (Inl namespace_unset_error, s)
          else (Inr (''id:'' @ ns), s))"

datatype tool_call =
    Id tool_args
  | Idx tool_args
  | SetNamespace string
  | GetNamespace
  | Other string

definition callTool :: "env \<Rightarrow> tool_call \<Rightarrow> state \<Rightarrow> (McpError + string) \<times> state" where
  \<comment> \<open>the \<^verbatim>\<open>CallToolRequestSchema\<close> handler; every error the handlers raise is an \<^verbatim>\<open>McpError\<close>
      already, so the \<^verbatim>\<open>catch\<close> passes it on\<close>
  "callTool E c s =
     (case c of
        Id a \<Rightarrow> handleIdTool E a s
      | Idx a \<Rightarrow> handleIdxTool E a s
      | SetNamespace n \<Rightarrow> handleSetNamespace n s
      | GetNamespace \<Rightarrow> handleGetNamespace s
      | Other name \<Rightarrow> (Inl (McpError MethodNotFound (''Unknown tool: '' @ name)), s))"

definition initial_state :: state where
  \<comment> \<open>\<^verbatim>\<open>let currentNamespace: string | null = null\<close>\<close>
  "initial_state = \<lparr>currentNamespace = None, calls = []\<rparr>"

section \<open>Two concrete environments\<close>

definition configured_env :: env where
  \<comment> \<open>an endpoint is configured, every name normalises to itself and has a resolver, and
      every \<^verbatim>\<open>root-context\<close> record reads \<^verbatim>\<open>hello\<close>\<close>
  "configured_env =
     \<lparr>RPC_URL = Some ''https://rpc.example/v2/key'',
      ens_normalize = (\<lambda>name. Inr name),
      namehash = (\<lambda>name. ''node:'' @ name),
      getEnsResolver = (\<lambda>t name. Inr (Some ''0xresolver'')),
      readContract = (\<lambda>t address node key. Inr ''hello'')\<rparr>"

definition unconfigured_env :: env where
  \<comment> \<open>the same world with \<^verbatim>\<open>RPC_URL\<close> not set\<close>
  "unconfigured_env = configured_env\<lparr>RPC_URL := None\<rparr>"

section \<open>Facts about the primitives\<close>

lemma js_split_ne: "js_split sep s \<noteq> []"
  by (induction s) (auto split: list.splits)

lemma js_join_split: "js_join sep (js_split sep s) = s"
proof (induction s)
  case Nil
  show ?case by simp
next
  case (Cons c cs)
  obtain p ps where e: "js_split sep cs = p # ps"
    using js_split_ne [of sep cs] by (cases "js_split sep cs") auto
  show ?case using Cons e by (cases ps) auto
qed

lemma js_split_no_sep: "sep \<notin> set x \<Longrightarrow> js_split sep x = [x]"
  by (induction x) auto

lemma js_split_append: "sep \<notin> set x \<Longrightarrow> js_split sep (x @ sep # r) = x # js_split sep r"
  by (induction x) auto

lemma js_split_join:
  "segs \<noteq> [] \<Longrightarrow> \<forall>x\<in>set segs. sep \<notin> set x \<Longrightarrow> js_split sep (js_join sep segs) = segs"
  by (induction sep segs rule: js_join.induct) (auto simp: js_split_no_sep js_split_append)

lemma includes_str_char: "includes_str s [c] \<longleftrightarrow> c \<in> set s"
  by (induction s) (auto simp: startsWith_def)

lemma length_js_split: "length (js_split sep s) = Suc (length (filter (\<lambda>c. c = sep) s))"
  by (induction s) (auto split: list.splits simp: js_split_ne)

lemma strip_id_or_idx_id: "strip_id_or_idx (''id:'' @ x) = x"
  by (simp add: strip_id_or_idx_def startsWith_def)

lemma strip_id_or_idx_idx: "strip_id_or_idx (''idx:'' @ x) = x"
  by (simp add: strip_id_or_idx_def startsWith_def)

lemma strip_id_id: "strip_id (''id:'' @ x) = x"
  by (simp add: strip_id_def startsWith_def)

lemma js_join_append:
  "xs \<noteq> [] \<Longrightarrow> ys \<noteq> [] \<Longrightarrow> js_join sep (xs @ ys) = js_join sep xs @ sep # js_join sep ys"
proof (induction sep xs rule: js_join.induct)
  case (1 sep)
  then show ?case by simp
next
  case (2 sep x)
  then show ?case by (cases ys) auto
next
  case (3 sep x y zs)
  then show ?case by simp
qed

lemma js_join_take_drop:
  assumes "0 < k" "k < length xs"
  shows "js_join sep (take k xs) @ sep # js_join sep (drop k xs) = js_join sep xs"
proof -
  have "take k xs \<noteq> []" "drop k xs \<noteq> []"
    using assms by auto
  then have "js_join sep (take k xs @ drop k xs) =
             js_join sep (take k xs) @ sep # js_join sep (drop k xs)"
    by (rule js_join_append)
  then show ?thesis by simp
qed

lemma js_slice_from_nonneg: "0 \<le> k \<Longrightarrow> js_slice k None xs = drop (nat k) xs"
  by (auto simp: js_slice_def js_index_def Let_def min_def)

lemma js_slice_from_neg:
  "k < 0 \<Longrightarrow> - k \<le> int (length xs) \<Longrightarrow> js_slice k None xs = drop (length xs - nat (- k)) xs"
  by (auto simp: js_slice_def js_index_def Let_def max_def nat_diff_distrib'
           intro: arg_cong2 [where f = drop])

lemma js_slice_butlast: "js_slice 0 (Some (- 1)) xs = butlast xs"
  by (auto simp: js_slice_def js_index_def Let_def max_def butlast_conv_take nat_diff_distrib')

section \<open>The line slicer\<close>

text \<open>
  Claim C8. For every content and every integer start line \<open>k \<ge> 0\<close>: start line 0 returns the
  content unchanged; a start line at or beyond the number of newline-separated lines returns the
  empty string; otherwise the result is the lines from index \<open>k\<close> onward, newline-joined, so
  that the first \<open>k\<close> lines, a newline and the result make up the content again. The three
  examples of the specification are part of the statement.
\<close>

theorem extractLines_from_start:
  assumes "0 \<le> k"
  shows "extractLines content k =
           (if k = 0 then content
            else if int (length (js_split (CHR 0x0A) content)) \<le> k then []
            else js_join (CHR 0x0A) (drop (nat k) (js_split (CHR 0x0A) content)))
         \<and> (0 < k \<and> k < int (length (js_split (CHR 0x0A) content)) \<longrightarrow>
              js_join (CHR 0x0A) (take (nat k) (js_split (CHR 0x0A) content)) @
                CHR 0x0A # extractLines content k = content)
         \<and> extractLines ''a\<newline>b\<newline>c'' 0 = ''a\<newline>b\<newline>c''
         \<and> extractLines ''a\<newline>b\<newline>c'' 1 = ''b\<newline>c''
         \<and> extractLines ''a\<newline>b\<newline>c'' 5 = []"
proof -
  let ?ls = "js_split (CHR 0x0A) content"
  have a: "extractLines content k =
           (if k = 0 then content
            else if int (length ?ls) \<le> k then []
            else js_join (CHR 0x0A) (drop (nat k) ?ls))"
    using assms by (simp add: extractLines_def Let_def js_slice_from_nonneg)
  have b: "js_join (CHR 0x0A) (take (nat k) ?ls) @ CHR 0x0A # extractLines content k = content"
    if "0 < k" "k < int (length ?ls)"
  proof -
    have "js_join (CHR 0x0A) (take (nat k) ?ls) @ CHR 0x0A # js_join (CHR 0x0A) (drop (nat k) ?ls)
          = js_join (CHR 0x0A) ?ls"
      using that by (intro js_join_take_drop) auto
    then show ?thesis using that a by (simp add: js_join_split)
  qed
  have c: "extractLines ''a\<newline>b\<newline>c'' 0 = ''a\<newline>b\<newline>c''"
    by (simp add: extractLines_def)
  have d: "extractLines ''a\<newline>b\<newline>c'' 1 = ''b\<newline>c''"
    by (simp add: extractLines_def js_slice_def js_index_def)
  have e: "extractLines ''a\<newline>b\<newline>c'' 5 = []"
    by (simp add: extractLines_def)
  show ?thesis using a b c d e by blast
qed

theorem extractLines_from_start_witness:
  "(0::int) \<le> 2 \<and> extractLines ''x\<newline>y\<newline>z\<newline>w'' 2 = ''z\<newline>w''
   \<and> ''x\<newline>y'' @ CHR 0x0A # extractLines ''x\<newline>y\<newline>z\<newline>w'' 2 = ''x\<newline>y\<newline>z\<newline>w''"
  using extractLines_from_start [of 2 "''x\<newline>y\<newline>z\<newline>w''"] by simp

text \<open>
  Claim C10. For every content and every negative integer start line \<open>k\<close> with \<open>|k|\<close> at most the
  number of lines, the result is the last \<open>|k|\<close> lines, newline-joined: the lines split into a
  front and a back of length \<open>|k|\<close>, and the result joins the back. The offset is not clamped to
  zero: start line \<open>-1\<close> on three lines gives the last line, not the whole content.
\<close>

theorem extractLines_negative:
  assumes "k < 0" and "- k \<le> int (length (js_split (CHR 0x0A) content))"
  shows "(\<exists>pre suf. js_split (CHR 0x0A) content = pre @ suf \<and> int (length suf) = - k
            \<and> extractLines content k = js_join (CHR 0x0A) suf)
         \<and> extractLines content k =
             js_join (CHR 0x0A)
               (drop (length (js_split (CHR 0x0A) content) - nat (- k)) (js_split (CHR 0x0A) content))
         \<and> extractLines ''a\<newline>b\<newline>c'' (- 1) = ''c''
         \<and> extractLines ''a\<newline>b\<newline>c'' (- 1) \<noteq> extractLines ''a\<newline>b\<newline>c'' 0"
proof -
  let ?ls = "js_split (CHR 0x0A) content"
  let ?n = "length ?ls - nat (- k)"
  have a: "extractLines content k = js_join (CHR 0x0A) (drop ?n ?ls)"
    using assms by (simp add: extractLines_def Let_def js_slice_from_neg)
  have "?ls = take ?n ?ls @ drop ?n ?ls"
    by simp
  moreover have "int (length (drop ?n ?ls)) = - k"
    using assms by simp
  ultimately have b: "\<exists>pre suf. ?ls = pre @ suf \<and> int (length suf) = - k
            \<and> extractLines content k = js_join (CHR 0x0A) suf"
    using a by blast
  have c: "extractLines ''a\<newline>b\<newline>c'' (- 1) = ''c''"
    by (simp add: extractLines_def js_slice_def js_index_def)
  have d: "extractLines ''a\<newline>b\<newline>c'' 0 = ''a\<newline>b\<newline>c''"
    by (simp add: extractLines_def)
  show ?thesis using a b c d by simp
qed

theorem extractLines_negative_witness:
  "(- 2 :: int) < 0 \<and> - (- 2) \<le> int (length (js_split (CHR 0x0A) ''x\<newline>y\<newline>z''))
   \<and> extractLines ''x\<newline>y\<newline>z'' (- 2) = ''y\<newline>z''"
  using extractLines_negative [of "- 2" "''x\<newline>y\<newline>z''"] by simp

section \<open>The name transformer\<close>

lemma partsToEnsName_rev:
  "segs \<noteq> [] \<Longrightarrow> partsToEnsName segs = Inr (js_join (CHR ''.'') (rev segs) @ ''.eth'')"
  by (cases segs) (auto simp: partsToEnsName_def)

lemma startsWith_apostrophe_cons: "startsWith (CHR 0x27 # r) [CHR 0x27]"
  by (simp add: startsWith_def)

lemma strip_prefix_either:
  "p = ''id:'' \<or> p = ''idx:'' \<Longrightarrow> strip_id_or_idx (p @ x) = x"
  by (auto simp: strip_id_or_idx_def startsWith_def)

lemma startsWith_id_decompose: "startsWith n ''id:'' \<Longrightarrow> n = ''id:'' @ drop 3 n"
proof -
  assume "startsWith n ''id:''"
  then have "take (length ''id:'') n = ''id:''" unfolding startsWith_def .
  then have "take 3 n = ''id:''" by (simp add: numeral_3_eq_3)
  then have "take 3 n @ drop 3 n = ''id:'' @ drop 3 n" by simp
  then show ?thesis by simp
qed

text \<open>
  Claim C1. For every non-empty sequence of dot-free segments, the external name is the segments
  in reversed order, dot-joined, followed by \<^verbatim>\<open>.eth\<close>; for one segment \<open>x\<close> that is \<open>x\<close>
  followed by \<^verbatim>\<open>.eth\<close>. This holds of the array step of \<^verbatim>\<open>idToEnsName\<close>, of \<^verbatim>\<open>idToEnsName\<close> on
  a prefixed full path with these segments, and of \<^verbatim>\<open>idToEnsName\<close> on a prefixed shorthand whose
  expansion has these segments; in none of these cases does it fail.
\<close>

theorem idToEnsName_reverses:
  assumes "segs \<noteq> []" and "\<forall>x\<in>set segs. CHR ''.'' \<notin> set x" and "p = ''id:'' \<or> p = ''idx:''"
  shows "partsToEnsName segs = Inr (js_join (CHR ''.'') (rev segs) @ ''.eth'')
         \<and> (\<not> startsWith (js_join (CHR ''.'') segs) [CHR 0x27] \<longrightarrow>
              idToEnsName s (p @ js_join (CHR ''.'') segs)
                = Inr (js_join (CHR ''.'') (rev segs) @ ''.eth''))
         \<and> (currentNamespace s = Some ns \<and> ns \<noteq> []
              \<and> strip_id ns @ ''.'' @ leaf = js_join (CHR ''.'') segs \<longrightarrow>
              idToEnsName s (p @ CHR 0x27 # leaf)
                = Inr (js_join (CHR ''.'') (rev segs) @ ''.eth''))
         \<and> (segs = [x] \<longrightarrow> partsToEnsName segs = Inr (x @ ''.eth''))
         \<and> partsToEnsName [''core'', ''subname''] = Inr ''subname.core.eth''"
proof -
  have sp: "js_split (CHR ''.'') (js_join (CHR ''.'') segs) = segs"
    using assms(1,2) by (rule js_split_join)
  have a: "partsToEnsName segs = Inr (js_join (CHR ''.'') (rev segs) @ ''.eth'')"
    using assms(1) by (rule partsToEnsName_rev)
  have b: "idToEnsName s (p @ js_join (CHR ''.'') segs)
                = Inr (js_join (CHR ''.'') (rev segs) @ ''.eth'')"
    if "\<not> startsWith (js_join (CHR ''.'') segs) [CHR 0x27]"
    using that assms(3) a sp by (simp add: idToEnsName_def strip_prefix_either)
  have c: "idToEnsName s (p @ CHR 0x27 # leaf)
                = Inr (js_join (CHR ''.'') (rev segs) @ ''.eth'')"
    if "currentNamespace s = Some ns" "ns \<noteq> []"
       "strip_id ns @ ''.'' @ leaf = js_join (CHR ''.'') segs"
    using that assms(3) a sp
    by (simp add: idToEnsName_def strip_prefix_either startsWith_apostrophe_cons)
  have d: "partsToEnsName segs = Inr (x @ ''.eth'')" if "segs = [x]"
    using that by (simp add: partsToEnsName_def)
  have e: "partsToEnsName [''core'', ''subname''] = Inr ''subname.core.eth''"
    by (simp add: partsToEnsName_def)
  show ?thesis using a b c d e by blast
qed

theorem idToEnsName_reverses_witness:
  "[''core'', ''user'', ''notes''] \<noteq> []
   \<and> CHR ''.'' \<notin> set ''core'' \<and> CHR ''.'' \<notin> set ''user'' \<and> CHR ''.'' \<notin> set ''notes''
   \<and> idToEnsName initial_state ''idx:core.user.notes'' = Inr ''notes.user.core.eth''
   \<and> idToEnsName \<lparr>currentNamespace = Some ''core.user'', calls = []\<rparr> ''idx:'notes''
        = Inr ''notes.user.core.eth''"
  using idToEnsName_reverses [of "[''core'', ''user'', ''notes'']" "''idx:''"
          "\<lparr>currentNamespace = Some ''core.user'', calls = []\<rparr>" "''core.user''" "''notes''"]
        idToEnsName_reverses [of "[''core'', ''user'', ''notes'']" "''idx:''" initial_state]
  by (simp add: startsWith_def strip_id_def)

section \<open>The namespace store\<close>

text \<open>
  Claim C3, as stated, fails at the input \<^verbatim>\<open>id:\<close>: the set succeeds and stores the empty string,
  which the get treats as no namespace.
\<close>

theorem namespace_round_trip_empty_counterexample:
  "startsWith ''id:'' ''id:''
   \<and> fst (handleSetNamespace ''id:'' initial_state) = Inr ''Namespace set to: id:''
   \<and> fst (handleGetNamespace (snd (handleSetNamespace ''id:'' initial_state)))
        = Inl namespace_unset_error
   \<and> fst (handleGetNamespace (snd (handleSetNamespace ''id:'' initial_state))) \<noteq> Inr ''id:''"
  by (simp add: handleSetNamespace_def handleGetNamespace_def startsWith_def strip_id_def
        initial_state_def)

text \<open>
  Claim C3, amended. For every input that begins with \<^verbatim>\<open>id:\<close> the set succeeds and stores the
  input with the prefix stripped, whatever the rest is; when at least one character follows the
  prefix, a get right after it succeeds and returns exactly the input. In particular a set of
  \<^verbatim>\<open>id:core\<close> followed by a get returns \<^verbatim>\<open>id:core\<close>.
\<close>

theorem namespace_round_trip:
  assumes "startsWith n ''id:''"
  shows "handleSetNamespace n s
           = (Inr (''Namespace set to: '' @ n), s\<lparr>currentNamespace := Some (drop 3 n)\<rparr>)
         \<and> (n \<noteq> ''id:'' \<longrightarrow>
              handleGetNamespace (snd (handleSetNamespace n s))
                = (Inr n, snd (handleSetNamespace n s)))
         \<and> fst (handleGetNamespace (snd (handleSetNamespace ''id:core'' s))) = Inr ''id:core''"
proof -
  have dec: "n = ''id:'' @ drop 3 n" using assms by (rule startsWith_id_decompose)
  have a: "handleSetNamespace n s
           = (Inr (''Namespace set to: '' @ n), s\<lparr>currentNamespace := Some (drop 3 n)\<rparr>)"
    using assms by (simp add: handleSetNamespace_def strip_id_def)
  have b: "handleGetNamespace (snd (handleSetNamespace n s)) = (Inr n, snd (handleSetNamespace n s))"
    if "n \<noteq> ''id:''"
  proof -
    have "drop 3 n \<noteq> []" using that dec by auto
    moreover have "''id:'' @ drop 3 n = n" using dec by simp
    ultimately show ?thesis unfolding a by (simp add: handleGetNamespace_def)
  qed
  have c: "fst (handleGetNamespace (snd (handleSetNamespace ''id:core'' s))) = Inr ''id:core''"
    by (simp add: handleSetNamespace_def handleGetNamespace_def startsWith_def strip_id_def)
  show ?thesis using a b c by blast
qed

theorem namespace_round_trip_witness:
  "startsWith ''id:core.user'' ''id:''
   \<and> currentNamespace (snd (handleSetNamespace ''id:core.user'' initial_state)) = Some ''core.user''
   \<and> fst (handleGetNamespace (snd (handleSetNamespace ''id:core.user'' initial_state)))
        = Inr ''id:core.user''"
proof -
  have h: "startsWith ''id:core.user'' ''id:''" by (simp add: startsWith_def)
  have ne: "''id:core.user'' \<noteq> ''id:''" by simp
  have "handleSetNamespace ''id:core.user'' initial_state
          = (Inr (''Namespace set to: '' @ ''id:core.user''),
             initial_state\<lparr>currentNamespace := Some (drop 3 ''id:core.user'')\<rparr>)"
    and "handleGetNamespace (snd (handleSetNamespace ''id:core.user'' initial_state))
          = (Inr ''id:core.user'', snd (handleSetNamespace ''id:core.user'' initial_state))"
    using ne namespace_round_trip [OF h, of initial_state] by blast+
  then show ?thesis using h by simp
qed

section \<open>Shorthand expansion\<close>

text \<open>
  Claim C4, as stated, fails for three kinds of stored namespace. A stored \<^verbatim>\<open>id:foo\<close> loses its
  \<^verbatim>\<open>id:\<close> in the shorthand but not in the full path; a stored namespace that begins with the
  apostrophe makes the full path a shorthand itself; and a stored empty namespace makes the
  shorthand fail while the full path converts.
\<close>

theorem shorthand_equivalence_counterexample:
  "idToEnsName (snd (handleSetNamespace ''id:id:foo'' initial_state)) ''id:'x'' = Inr ''x.foo.eth''
   \<and> idToEnsName (snd (handleSetNamespace ''id:id:foo'' initial_state)) ''id:id:foo.x''
        = Inr ''x.id:foo.eth''
   \<and> idToEnsName (snd (handleSetNamespace ''id:'a'' initial_state)) ''id:'x'' = Inr ''x.'a.eth''
   \<and> idToEnsName (snd (handleSetNamespace ''id:'a'' initial_state)) ''id:'a.x''
        = Inr ''x.a.'a.eth''
   \<and> idToEnsName (snd (handleSetNamespace ''id:'' initial_state)) ''id:'x''
        = Inl no_namespace_error
   \<and> idToEnsName (snd (handleSetNamespace ''id:'' initial_state)) ''id:.x'' = Inr ''x..eth''"
  by (simp add: handleSetNamespace_def idToEnsName_def strip_id_or_idx_def strip_id_def
        startsWith_def initial_state_def partsToEnsName_def)

text \<open>
  Claim C4, amended. For every stored namespace \<open>N\<close> that is not empty and begins neither with
  \<^verbatim>\<open>id:\<close> nor with the apostrophe, and for every leaf \<open>L\<close>, the shorthand \<^verbatim>\<open>id:'L\<close> converts to the
  same external name as the full path \<^verbatim>\<open>id:N.L\<close>, whatever the namespace is when the full path is
  converted. In particular after a set of \<^verbatim>\<open>id:idreg\<close> the shorthand \<^verbatim>\<open>id:'subname\<close> gives
  \<^verbatim>\<open>subname.idreg.eth\<close>, as \<^verbatim>\<open>id:idreg.subname\<close> does.
\<close>

theorem shorthand_equivalence:
  assumes "currentNamespace s = Some N" and "N \<noteq> []"
    and "\<not> startsWith N ''id:''" and "\<not> startsWith N [CHR 0x27]"
  shows "idToEnsName s (''id:'' @ CHR 0x27 # L) = idToEnsName s' (''id:'' @ N @ ''.'' @ L)
         \<and> idToEnsName s (''id:'' @ CHR 0x27 # L)
             = partsToEnsName (js_split (CHR ''.'') (N @ ''.'' @ L))
         \<and> idToEnsName (snd (handleSetNamespace ''id:idreg'' s0)) ''id:'subname''
             = Inr ''subname.idreg.eth''
         \<and> idToEnsName s0 ''id:idreg.subname'' = Inr ''subname.idreg.eth''"
proof -
  have full: "\<not> startsWith (N @ ''.'' @ L) [CHR 0x27]"
    using assms(2,4) by (cases N) (auto simp: startsWith_def)
  have a: "idToEnsName s (''id:'' @ CHR 0x27 # L)
             = partsToEnsName (js_split (CHR ''.'') (N @ ''.'' @ L))"
    using assms(1,2,3)
    by (simp only: idToEnsName_def strip_id_or_idx_id Let_def startsWith_apostrophe_cons)
       (simp add: strip_id_def)
  have b: "idToEnsName s' (''id:'' @ N @ ''.'' @ L)
             = partsToEnsName (js_split (CHR ''.'') (N @ ''.'' @ L))"
    using full by (simp only: idToEnsName_def strip_id_or_idx_id Let_def) simp
  have c: "idToEnsName (snd (handleSetNamespace ''id:idreg'' s0)) ''id:'subname''
             = Inr ''subname.idreg.eth''"
    by (simp add: handleSetNamespace_def idToEnsName_def strip_id_or_idx_def strip_id_def
          startsWith_def partsToEnsName_def)
  have d: "idToEnsName s0 ''id:idreg.subname'' = Inr ''subname.idreg.eth''"
    by (simp add: idToEnsName_def strip_id_or_idx_def startsWith_def partsToEnsName_def)
  show ?thesis using a b c d by simp
qed

theorem shorthand_equivalence_witness:
  "currentNamespace \<lparr>currentNamespace = Some ''core.user'', calls = []\<rparr> = Some ''core.user''
   \<and> ''core.user'' \<noteq> [] \<and> \<not> startsWith ''core.user'' ''id:''
   \<and> \<not> startsWith ''core.user'' [CHR 0x27]
   \<and> idToEnsName \<lparr>currentNamespace = Some ''core.user'', calls = []\<rparr> ''id:'notes''
       = idToEnsName initial_state ''id:core.user.notes''
   \<and> idToEnsName \<lparr>currentNamespace = Some ''core.user'', calls = []\<rparr> ''id:'notes''
       = Inr ''notes.user.core.eth''"
  using shorthand_equivalence [of "\<lparr>currentNamespace = Some ''core.user'', calls = []\<rparr>"
          "''core.user''" "''notes''" initial_state]
  by (simp add: startsWith_def partsToEnsName_def idToEnsName_def strip_id_or_idx_def)

section \<open>Who writes the namespace\<close>

lemma startsWith_prefix_either:
  "p = ''id:'' \<or> p = ''idx:'' \<Longrightarrow> startsWith (p @ x) ''id:'' \<or> startsWith (p @ x) ''idx:''"
  by (auto simp: startsWith_def)

lemma parse_shorthand_or_single:
  "startsWith (strip_id_or_idx i) [CHR 0x27] \<or> CHR ''.'' \<notin> set (strip_id_or_idx i)
   \<Longrightarrow> parseIdAndUpdateNamespace i s = s"
  by (auto simp: parseIdAndUpdateNamespace_def Let_def includes_str_char)

lemma parse_namespace_cases:
  "parseIdAndUpdateNamespace i s = s
   \<or> (\<exists>v. parseIdAndUpdateNamespace i s = s\<lparr>currentNamespace := Some v\<rparr>
          \<and> (\<forall>t. parseIdAndUpdateNamespace i t = t\<lparr>currentNamespace := Some v\<rparr>))"
  by (auto simp: parseIdAndUpdateNamespace_def Let_def)

lemma parse_calls: "calls (parseIdAndUpdateNamespace i s) = calls s"
  by (auto simp: parseIdAndUpdateNamespace_def Let_def)

lemma parse_twice:
  "currentNamespace t = currentNamespace (parseIdAndUpdateNamespace i s)
   \<Longrightarrow> currentNamespace (parseIdAndUpdateNamespace i t) = currentNamespace (parseIdAndUpdateNamespace i s)"
  using parse_namespace_cases [of i s]
  by (auto simp: parseIdAndUpdateNamespace_def Let_def)

lemma resolve_namespace:
  "currentNamespace (snd (resolveEnsTextRecord E n s)) = currentNamespace s"
  by (simp add: resolveEnsTextRecord_def Let_def split: sum.splits option.splits)

lemma resolve_namespace_dest:
  "resolveEnsTextRecord E n t = (r, s2) \<Longrightarrow> currentNamespace s2 = currentNamespace t"
  using resolve_namespace [of E n t] by simp

lemma handleIdTool_namespace:
  "currentNamespace (snd (handleIdTool E a s)) =
     (if rpcUrl E \<noteq> placeholder \<and> (startsWith (arg_id a) ''id:'' \<or> startsWith (arg_id a) ''idx:'')
      then currentNamespace (parseIdAndUpdateNamespace (arg_id a) s)
      else currentNamespace s)"
  by (auto simp: handleIdTool_def Let_def split: sum.splits prod.splits
           dest: resolve_namespace_dest)

lemma handleIdTool_error_gate:
  "\<not> (rpcUrl E \<noteq> placeholder \<and> (startsWith (arg_id a) ''id:'' \<or> startsWith (arg_id a) ''idx:''))
   \<Longrightarrow> \<exists>e. handleIdTool E a s = (Inl e, s)"
  by (auto simp: handleIdTool_def Let_def)

lemma handleIdxTool_namespace:
  "currentNamespace (snd (handleIdxTool E a s)) =
     (if rpcUrl E \<noteq> placeholder \<and> (startsWith (arg_id a) ''id:'' \<or> startsWith (arg_id a) ''idx:'')
      then currentNamespace (parseIdAndUpdateNamespace (arg_id a) s)
      else currentNamespace s)"
proof (cases "handleIdTool E a s")
  case (Pair r s1)
  have n1: "currentNamespace s1 =
     (if rpcUrl E \<noteq> placeholder \<and> (startsWith (arg_id a) ''id:'' \<or> startsWith (arg_id a) ''idx:'')
      then currentNamespace (parseIdAndUpdateNamespace (arg_id a) s)
      else currentNamespace s)"
    using handleIdTool_namespace [of E a s] Pair by simp
  show ?thesis
  proof (cases r)
    case (Inl e)
    then show ?thesis using Pair n1 by (simp add: handleIdxTool_def)
  next
    case (Inr original)
    have g: "rpcUrl E \<noteq> placeholder \<and> (startsWith (arg_id a) ''id:'' \<or> startsWith (arg_id a) ''idx:'')"
      using handleIdTool_error_gate [of E a s] Pair Inr by auto
    obtain r2 s2 where p2: "handleIdTool E a s1 = (r2, s2)"
      by (cases "handleIdTool E a s1") auto
    have "currentNamespace s2 = currentNamespace (parseIdAndUpdateNamespace (arg_id a) s1)"
      using handleIdTool_namespace [of E a s1] p2 g by simp
    also have "\<dots> = currentNamespace (parseIdAndUpdateNamespace (arg_id a) s)"
      using n1 g by (intro parse_twice) simp
    finally have "currentNamespace s2 = currentNamespace (parseIdAndUpdateNamespace (arg_id a) s)" .
    then show ?thesis using Pair Inr p2 g
      by (cases r2) (simp_all add: handleIdxTool_def Let_def)
  qed
qed

lemma join_has_sep:
  assumes "2 \<le> length segs" "\<forall>x\<in>set segs. sep \<notin> set x"
  shows "sep \<in> set (js_join sep segs)"
proof -
  have "segs \<noteq> []" using assms(1) by auto
  then have "js_split sep (js_join sep segs) = segs" using assms(2) by (rule js_split_join)
  then have "Suc (length (filter (\<lambda>c. c = sep) (js_join sep segs))) = length segs"
    using length_js_split [of sep "js_join sep segs"] by simp
  then have "filter (\<lambda>c. c = sep) (js_join sep segs) \<noteq> []" using assms(1) by auto
  then show ?thesis by (auto simp: filter_empty_conv)
qed

lemma parse_full_path:
  assumes "2 \<le> length segs" "\<forall>x\<in>set segs. CHR ''.'' \<notin> set x"
    and "\<not> startsWith (js_join (CHR ''.'') segs) [CHR 0x27]" and "p = ''id:'' \<or> p = ''idx:''"
  shows "parseIdAndUpdateNamespace (p @ js_join (CHR ''.'') segs) s
           = s\<lparr>currentNamespace := Some (js_join (CHR ''.'') (butlast segs))\<rparr>"
proof -
  have ne: "segs \<noteq> []" using assms(1) by auto
  have sp: "js_split (CHR ''.'') (js_join (CHR ''.'') segs) = segs"
    using ne assms(2) by (rule js_split_join)
  have st: "strip_id_or_idx (p @ js_join (CHR ''.'') segs) = js_join (CHR ''.'') segs"
    using assms(4) by (auto simp: strip_id_or_idx_def startsWith_def)
  have inc: "includes_str (js_join (CHR ''.'') segs) ''.''"
    using join_has_sep [OF assms(1,2)] by (simp add: includes_str_char)
  show ?thesis
    using assms(1,3) inc by (simp add: parseIdAndUpdateNamespace_def st sp js_slice_butlast)
qed

lemma handleIdxTool_error:
  "handleIdTool E a s = (Inl e, s') \<Longrightarrow> handleIdxTool E a s = (Inl e, s')"
  by (simp add: handleIdxTool_def)

lemma configured_env_fields:
  "RPC_URL configured_env = Some ''https://rpc.example/v2/key''"
  "ens_normalize configured_env n = Inr n"
  "namehash configured_env n = ''node:'' @ n"
  "getEnsResolver configured_env t n = Inr (Some ''0xresolver'')"
  "readContract configured_env t a n k = Inr ''hello''"
  by (simp_all add: configured_env_def)

lemma configured_env_rpc: "rpcUrl configured_env \<noteq> placeholder"
  by (simp add: rpcUrl_def configured_env_def placeholder_def)

lemma partsToEnsName_never_empty_error:
  "partsToEnsName (js_split sep x) \<noteq> Inl e"
  using js_split_ne [of sep x]
  by (cases "js_split sep x") (auto simp: partsToEnsName_def)

text \<open>
  Claim C2. A prefixed full path of two or more dot-free segments sets the namespace to all
  segments but the last, dot-joined: \<^verbatim>\<open>parseIdAndUpdateNamespace\<close> does it, and so do both tools
  once the endpoint gate is passed. A shorthand identifier and an identifier whose remainder has
  no dot leave the namespace as it was. Over all tool calls, the namespace after the call is the
  namespace before it, except that the set tool stores its stripped argument and the two
  resolving tools store what \<^verbatim>\<open>parseIdAndUpdateNamespace\<close> stores; nothing else writes it.
\<close>

theorem namespace_writers:
  "(2 \<le> length segs \<and> (\<forall>x\<in>set segs. CHR ''.'' \<notin> set x)
      \<and> \<not> startsWith (js_join (CHR ''.'') segs) [CHR 0x27]
      \<and> (p = ''id:'' \<or> p = ''idx:'') \<and> arg_id a = p @ js_join (CHR ''.'') segs \<longrightarrow>
        currentNamespace (parseIdAndUpdateNamespace (arg_id a) s)
          = Some (js_join (CHR ''.'') (butlast segs))
        \<and> (rpcUrl E \<noteq> placeholder \<longrightarrow>
             currentNamespace (snd (handleIdTool E a s)) = Some (js_join (CHR ''.'') (butlast segs))
             \<and> currentNamespace (snd (handleIdxTool E a s))
                 = Some (js_join (CHR ''.'') (butlast segs))))
   \<and> (startsWith (strip_id_or_idx (arg_id b)) [CHR 0x27]
        \<or> CHR ''.'' \<notin> set (strip_id_or_idx (arg_id b)) \<longrightarrow>
        parseIdAndUpdateNamespace (arg_id b) s = s
        \<and> currentNamespace (snd (handleIdTool E b s)) = currentNamespace s
        \<and> currentNamespace (snd (handleIdxTool E b s)) = currentNamespace s)
   \<and> currentNamespace (snd (callTool E c s)) =
       (case c of
          Id x \<Rightarrow>
            if rpcUrl E \<noteq> placeholder
               \<and> (startsWith (arg_id x) ''id:'' \<or> startsWith (arg_id x) ''idx:'')
            then currentNamespace (parseIdAndUpdateNamespace (arg_id x) s)
            else currentNamespace s
        | Idx x \<Rightarrow>
            if rpcUrl E \<noteq> placeholder
               \<and> (startsWith (arg_id x) ''id:'' \<or> startsWith (arg_id x) ''idx:'')
            then currentNamespace (parseIdAndUpdateNamespace (arg_id x) s)
            else currentNamespace s
        | SetNamespace n \<Rightarrow>
            if startsWith n ''id:'' then Some (strip_id n) else currentNamespace s
        | GetNamespace \<Rightarrow> currentNamespace s
        | Other name \<Rightarrow> currentNamespace s)"
proof -
  have full: "currentNamespace (parseIdAndUpdateNamespace (arg_id a) s)
                = Some (js_join (CHR ''.'') (butlast segs))
              \<and> (rpcUrl E \<noteq> placeholder \<longrightarrow>
                   currentNamespace (snd (handleIdTool E a s))
                     = Some (js_join (CHR ''.'') (butlast segs))
                   \<and> currentNamespace (snd (handleIdxTool E a s))
                       = Some (js_join (CHR ''.'') (butlast segs)))"
    if h: "2 \<le> length segs" "\<forall>x\<in>set segs. CHR ''.'' \<notin> set x"
      "\<not> startsWith (js_join (CHR ''.'') segs) [CHR 0x27]"
      "p = ''id:'' \<or> p = ''idx:''" "arg_id a = p @ js_join (CHR ''.'') segs"
  proof -
    have upd: "currentNamespace (parseIdAndUpdateNamespace (arg_id a) s)
                = Some (js_join (CHR ''.'') (butlast segs))"
      unfolding h(5) by (simp add: parse_full_path [OF h(1-4)])
    have pre: "startsWith (arg_id a) ''id:'' \<or> startsWith (arg_id a) ''idx:''"
      unfolding h(5) using h(4) by (rule startsWith_prefix_either)
    show ?thesis
      using upd pre by (simp add: handleIdTool_namespace handleIdxTool_namespace)
  qed
  have frame: "parseIdAndUpdateNamespace (arg_id b) s = s
        \<and> currentNamespace (snd (handleIdTool E b s)) = currentNamespace s
        \<and> currentNamespace (snd (handleIdxTool E b s)) = currentNamespace s"
    if "startsWith (strip_id_or_idx (arg_id b)) [CHR 0x27]
        \<or> CHR ''.'' \<notin> set (strip_id_or_idx (arg_id b))"
    using parse_shorthand_or_single [OF that, of s]
    by (simp add: handleIdTool_namespace handleIdxTool_namespace)
  have disp: "currentNamespace (snd (callTool E c s)) =
       (case c of
          Id x \<Rightarrow>
            if rpcUrl E \<noteq> placeholder
               \<and> (startsWith (arg_id x) ''id:'' \<or> startsWith (arg_id x) ''idx:'')
            then currentNamespace (parseIdAndUpdateNamespace (arg_id x) s)
            else currentNamespace s
        | Idx x \<Rightarrow>
            if rpcUrl E \<noteq> placeholder
               \<and> (startsWith (arg_id x) ''id:'' \<or> startsWith (arg_id x) ''idx:'')
            then currentNamespace (parseIdAndUpdateNamespace (arg_id x) s)
            else currentNamespace s
        | SetNamespace n \<Rightarrow>
            if startsWith n ''id:'' then Some (strip_id n) else currentNamespace s
        | GetNamespace \<Rightarrow> currentNamespace s
        | Other name \<Rightarrow> currentNamespace s)"
  proof (cases c)
    case (Id x)
    then show ?thesis by (simp only: callTool_def tool_call.case handleIdTool_namespace)
  next
    case (Idx x)
    then show ?thesis by (simp only: callTool_def tool_call.case handleIdxTool_namespace)
  next
    case (SetNamespace n)
    then show ?thesis by (simp add: callTool_def handleSetNamespace_def)
  next
    case GetNamespace
    then show ?thesis by (simp add: callTool_def handleGetNamespace_def split: option.splits)
  next
    case (Other name)
    then show ?thesis by (simp add: callTool_def)
  qed
  show ?thesis using full frame disp by blast
qed


theorem namespace_writers_witness:
  "2 \<le> length [''core'', ''user'', ''notes'']
   \<and> CHR ''.'' \<notin> set ''core'' \<and> CHR ''.'' \<notin> set ''user'' \<and> CHR ''.'' \<notin> set ''notes''
   \<and> rpcUrl configured_env \<noteq> placeholder
   \<and> currentNamespace (snd (handleIdTool configured_env
          \<lparr>arg_id = ''id:core.user.notes'', arg_start_line = None\<rparr> initial_state))
        = Some ''core.user''
   \<and> currentNamespace (snd (handleIdxTool configured_env
          \<lparr>arg_id = ''id:core.user.notes'', arg_start_line = None\<rparr> initial_state))
        = Some ''core.user''
   \<and> currentNamespace (snd (handleIdTool configured_env
          \<lparr>arg_id = ''id:notes'', arg_start_line = None\<rparr> initial_state))
        = currentNamespace initial_state
   \<and> currentNamespace (snd (callTool configured_env GetNamespace initial_state))
        = currentNamespace initial_state"
proof -
  have r: "rpcUrl configured_env \<noteq> placeholder"
    by (simp add: rpcUrl_def configured_env_def placeholder_def)
  have h: "2 \<le> length [''core'', ''user'', ''notes'']"
    "\<forall>x\<in>set [''core'', ''user'', ''notes'']. CHR ''.'' \<notin> set x"
    "\<not> startsWith (js_join (CHR ''.'') [''core'', ''user'', ''notes'']) [CHR 0x27]"
    "arg_id \<lparr>arg_id = ''id:core.user.notes'', arg_start_line = None\<rparr>
       = ''id:'' @ js_join (CHR ''.'') [''core'', ''user'', ''notes'']"
    "CHR ''.'' \<notin> set (strip_id_or_idx (arg_id \<lparr>arg_id = ''id:notes'', arg_start_line = None\<rparr>))"
    by (simp_all add: startsWith_def strip_id_or_idx_def)
  show ?thesis
    using r h
      namespace_writers [of "[''core'', ''user'', ''notes'']" "''id:''"
        "\<lparr>arg_id = ''id:core.user.notes'', arg_start_line = None\<rparr>" initial_state configured_env
        "\<lparr>arg_id = ''id:notes'', arg_start_line = None\<rparr>" GetNamespace]
    by simp
qed

section \<open>Failures before any lookup\<close>

text \<open>
  Claim C7. For every shorthand identifier (a recognised prefix followed by the apostrophe), when
  no namespace is set (the variable is \<^verbatim>\<open>null\<close> or the empty string), the conversion fails with
  the error that asks for \<^verbatim>\<open>id_set_namespace\<close>; with a configured endpoint both tools return
  that error; and in every case the state, and with it the log of outbound calls, is unchanged.
\<close>

theorem shorthand_without_namespace:
  assumes "currentNamespace s = None \<or> currentNamespace s = Some []"
    and "p = ''id:'' \<or> p = ''idx:''"
    and "arg_id a = p @ CHR 0x27 # rest"
  shows "idToEnsName s (arg_id a) = Inl no_namespace_error
         \<and> (rpcUrl E \<noteq> placeholder \<longrightarrow>
               handleIdTool E a s = (Inl no_namespace_error, s)
               \<and> handleIdxTool E a s = (Inl no_namespace_error, s))
         \<and> calls (snd (handleIdTool E a s)) = calls s
         \<and> calls (snd (handleIdxTool E a s)) = calls s"
proof -
  have st: "strip_id_or_idx (arg_id a) = CHR 0x27 # rest"
    using assms(2,3) by (simp add: strip_prefix_either)
  have sh: "startsWith (strip_id_or_idx (arg_id a)) [CHR 0x27]"
    unfolding st by (rule startsWith_apostrophe_cons)
  have conv: "idToEnsName s (arg_id a) = Inl no_namespace_error"
    using assms(1) sh by (auto simp: idToEnsName_def Let_def)
  have same: "parseIdAndUpdateNamespace (arg_id a) s = s"
    using sh by (simp add: parse_shorthand_or_single)
  have pre: "startsWith (arg_id a) ''id:'' \<or> startsWith (arg_id a) ''idx:''"
    unfolding assms(3) using assms(2) by (rule startsWith_prefix_either)
  have plain: "handleIdTool E a s = (Inl no_namespace_error, s)" if "rpcUrl E \<noteq> placeholder"
    using that pre conv same by (auto simp: handleIdTool_def Let_def)
  have gated: "handleIdTool E a s = (Inl rpc_error, s)" if "rpcUrl E = placeholder"
    using that by (simp add: handleIdTool_def)
  have exec: "handleIdxTool E a s = (Inl no_namespace_error, s)" if "rpcUrl E \<noteq> placeholder"
    using plain [OF that] by (rule handleIdxTool_error)
  have c1: "calls (snd (handleIdTool E a s)) = calls s"
    using plain gated by (cases "rpcUrl E = placeholder") simp_all
  have c2: "calls (snd (handleIdxTool E a s)) = calls s"
    using exec gated [THEN handleIdxTool_error] by (cases "rpcUrl E = placeholder") simp_all
  show ?thesis using conv plain exec c1 c2 by blast
qed

theorem shorthand_without_namespace_witness:
  "currentNamespace initial_state = None
   \<and> rpcUrl configured_env \<noteq> placeholder
   \<and> handleIdTool configured_env \<lparr>arg_id = ''id:'subname'', arg_start_line = None\<rparr> initial_state
       = (Inl no_namespace_error, initial_state)
   \<and> handleIdxTool configured_env \<lparr>arg_id = ''id:'subname'', arg_start_line = None\<rparr> initial_state
       = (Inl no_namespace_error, initial_state)"
proof -
  have n: "currentNamespace initial_state = None \<or> currentNamespace initial_state = Some []"
    by (simp add: initial_state_def)
  have r: "rpcUrl configured_env \<noteq> placeholder"
    by (simp add: rpcUrl_def configured_env_def placeholder_def)
  have i: "arg_id \<lparr>arg_id = ''id:'subname'', arg_start_line = None\<rparr> = ''id:'' @ CHR 0x27 # ''subname''"
    by simp
  show ?thesis
    using n r shorthand_without_namespace [OF n _ i, of configured_env]
    by (simp add: initial_state_def)
qed

text \<open>
  Claim C5, as stated, fails: with the endpoint unset and the prefix missing, both tools return
  the endpoint error, not the prefix error.
\<close>

theorem prefix_check_first_counterexample:
  "rpcUrl unconfigured_env = placeholder
   \<and> \<not> startsWith ''invalid-format'' ''id:'' \<and> \<not> startsWith ''invalid-format'' ''idx:''
   \<and> handleIdTool unconfigured_env \<lparr>arg_id = ''invalid-format'', arg_start_line = None\<rparr> initial_state
       = (Inl rpc_error, initial_state)
   \<and> handleIdxTool unconfigured_env \<lparr>arg_id = ''invalid-format'', arg_start_line = None\<rparr> initial_state
       = (Inl rpc_error, initial_state)
   \<and> rpc_error \<noteq> prefix_error"
  by (simp add: handleIdxTool_def handleIdTool_def rpcUrl_def unconfigured_env_def configured_env_def
        startsWith_def rpc_error_def prefix_error_def)

text \<open>
  Claim C5, amended. For every invocation of either tool whose identifier lacks both prefixes:
  when the endpoint is the unset placeholder the caller receives the endpoint error, since that
  check comes first; otherwise the caller receives the missing-prefix error. In both cases the
  state is unchanged, so nothing else was processed.
\<close>

theorem rpc_gate_then_prefix_check:
  assumes "\<not> startsWith (arg_id a) ''id:''" and "\<not> startsWith (arg_id a) ''idx:''"
  shows "(rpcUrl E = placeholder \<longrightarrow>
            handleIdTool E a s = (Inl rpc_error, s) \<and> handleIdxTool E a s = (Inl rpc_error, s))
         \<and> (rpcUrl E \<noteq> placeholder \<longrightarrow>
            handleIdTool E a s = (Inl prefix_error, s) \<and> handleIdxTool E a s = (Inl prefix_error, s))"
proof -
  have a: "handleIdTool E a s = (Inl rpc_error, s)" if "rpcUrl E = placeholder"
    using that by (simp add: handleIdTool_def)
  have b: "handleIdTool E a s = (Inl prefix_error, s)" if "rpcUrl E \<noteq> placeholder"
    using that assms by (simp add: handleIdTool_def)
  show ?thesis using a b handleIdxTool_error by blast
qed

theorem rpc_gate_then_prefix_check_witness:
  "\<not> startsWith ''core.subname'' ''id:'' \<and> \<not> startsWith ''core.subname'' ''idx:''
   \<and> rpcUrl configured_env \<noteq> placeholder
   \<and> handleIdTool configured_env \<lparr>arg_id = ''core.subname'', arg_start_line = None\<rparr> initial_state
       = (Inl prefix_error, initial_state)
   \<and> handleIdxTool configured_env \<lparr>arg_id = ''core.subname'', arg_start_line = None\<rparr> initial_state
       = (Inl prefix_error, initial_state)
   \<and> rpcUrl unconfigured_env = placeholder
   \<and> handleIdTool unconfigured_env \<lparr>arg_id = ''core.subname'', arg_start_line = None\<rparr> initial_state
       = (Inl rpc_error, initial_state)"
proof -
  have p: "\<not> startsWith (arg_id \<lparr>arg_id = ''core.subname'', arg_start_line = None\<rparr>) ''id:''"
          "\<not> startsWith (arg_id \<lparr>arg_id = ''core.subname'', arg_start_line = None\<rparr>) ''idx:''"
    by (simp_all add: startsWith_def)
  have r: "rpcUrl configured_env \<noteq> placeholder" "rpcUrl unconfigured_env = placeholder"
    by (simp_all add: rpcUrl_def unconfigured_env_def configured_env_def placeholder_def)
  show ?thesis
    using p r rpc_gate_then_prefix_check [OF p, of configured_env initial_state]
      rpc_gate_then_prefix_check [OF p, of unconfigured_env initial_state]
    by simp
qed

text \<open>
  Claim C6 says that a prefix with an empty remainder, such as \<^verbatim>\<open>id:\<close>, is rejected with the
  "cannot be empty" error before a name is derived or a lookup is attempted. The code does not do
  so: the split of the empty string has one part, so the conversion returns \<^verbatim>\<open>.eth\<close>, no input
  at all makes \<^verbatim>\<open>idToEnsName\<close> raise that error, and with a configured endpoint the plain tool
  goes on to look \<^verbatim>\<open>.eth\<close> up.
\<close>

theorem empty_remainder_not_rejected:
  "idToEnsName s ''id:'' = Inr ''.eth''
   \<and> idToEnsName s ''idx:'' = Inr ''.eth''
   \<and> idToEnsName s ident \<noteq> Inl empty_id_error
   \<and> handleIdTool configured_env \<lparr>arg_id = ''id:'', arg_start_line = None\<rparr> initial_state
       = (Inr (id_response ''id:'' ''.eth'' 0 ''hello''),
          \<lparr>currentNamespace = None,
           calls = [GetEnsResolver ''.eth'',
                    ReadContract ''0xresolver'' ''node:.eth'' ''root-context'']\<rparr>)"
proof -
  have a: "idToEnsName t ''id:'' = Inr ''.eth''" "idToEnsName t ''idx:'' = Inr ''.eth''" for t
    by (simp_all add: idToEnsName_def strip_id_or_idx_def startsWith_def partsToEnsName_def)
  have b: "idToEnsName s ident \<noteq> Inl empty_id_error"
    by (auto simp: idToEnsName_def Let_def partsToEnsName_never_empty_error
          no_namespace_error_def empty_id_error_def split: option.splits)
  have c: "handleIdTool configured_env \<lparr>arg_id = ''id:'', arg_start_line = None\<rparr> initial_state
       = (Inr (id_response ''id:'' ''.eth'' 0 ''hello''),
          \<lparr>currentNamespace = None,
           calls = [GetEnsResolver ''.eth'',
                    ReadContract ''0xresolver'' ''node:.eth'' ''root-context'']\<rparr>)"
    by (simp add: handleIdTool_def a configured_env_rpc configured_env_fields startsWith_def
          parseIdAndUpdateNamespace_def strip_id_or_idx_def resolveEnsTextRecord_def
          initial_state_def extractLines_def Let_def)
  show ?thesis using a b c by simp
qed

section \<open>The suggested execution\<close>

text \<open>
  Claim C9 says that the suggestion of the execution tool depends on the fetched, sliced content
  only. The code chooses it from the whole text of the plain response, which carries the
  identifier and the external name: with the same fetched content \<^verbatim>\<open>hello\<close>, the identifier
  \<^verbatim>\<open>id:core.notes\<close> gets the generic suggestion, which is also the one for the content alone,
  and \<^verbatim>\<open>id:bash.notes\<close> gets the shell suggestion.
\<close>

theorem suggestion_depends_on_identifier:
  "fst (handleIdTool configured_env \<lparr>arg_id = ''id:core.notes'', arg_start_line = None\<rparr> initial_state)
     = Inr (id_response ''id:core.notes'' ''notes.core.eth'' 0 ''hello'')
   \<and> fst (handleIdTool configured_env \<lparr>arg_id = ''id:bash.notes'', arg_start_line = None\<rparr> initial_state)
     = Inr (id_response ''id:bash.notes'' ''notes.bash.eth'' 0 ''hello'')
   \<and> fst (handleIdxTool configured_env \<lparr>arg_id = ''id:core.notes'', arg_start_line = None\<rparr> initial_state)
     = Inr (replace_first ''--- ID Metadata ---'' ''--- IDX Execution Context ---''
              (id_response ''id:core.notes'' ''notes.core.eth'' 0 ''hello'') @
            ''\<newline>\<newline>--- Execution Ready ---\<newline>'' @
            ''This content is prepared for immediate execution.\<newline>'' @
            bulb @ '' Create the appropriate file and execute immediately'')
   \<and> fst (handleIdxTool configured_env \<lparr>arg_id = ''id:bash.notes'', arg_start_line = None\<rparr> initial_state)
     = Inr (replace_first ''--- ID Metadata ---'' ''--- IDX Execution Context ---''
              (id_response ''id:bash.notes'' ''notes.bash.eth'' 0 ''hello'') @
            ''\<newline>\<newline>--- Execution Ready ---\<newline>'' @
            ''This content is prepared for immediate execution.\<newline>'' @
            bulb @ '' Suggested execution: `bash filename.sh` (replace with your desired filename)'')
   \<and> executionSuggestion (toLowerCase ''hello'')
     = bulb @ '' Create the appropriate file and execute immediately''"
proof -
  have core: "handleIdTool configured_env \<lparr>arg_id = ''id:core.notes'', arg_start_line = None\<rparr> s
       = (Inr (id_response ''id:core.notes'' ''notes.core.eth'' 0 ''hello''),
          s\<lparr>currentNamespace := Some ''core'',
            calls := calls s @ [GetEnsResolver ''notes.core.eth'',
                      ReadContract ''0xresolver'' ''node:notes.core.eth'' ''root-context'']\<rparr>)" for s
    by (simp add: handleIdTool_def configured_env_rpc configured_env_fields startsWith_def
          js_slice_def js_index_def parseIdAndUpdateNamespace_def strip_id_or_idx_def
          resolveEnsTextRecord_def idToEnsName_def partsToEnsName_def extractLines_def Let_def)
  have bash: "handleIdTool configured_env \<lparr>arg_id = ''id:bash.notes'', arg_start_line = None\<rparr> s
       = (Inr (id_response ''id:bash.notes'' ''notes.bash.eth'' 0 ''hello''),
          s\<lparr>currentNamespace := Some ''bash'',
            calls := calls s @ [GetEnsResolver ''notes.bash.eth'',
                      ReadContract ''0xresolver'' ''node:notes.bash.eth'' ''root-context'']\<rparr>)" for s
    by (simp add: handleIdTool_def configured_env_rpc configured_env_fields startsWith_def
          js_slice_def js_index_def parseIdAndUpdateNamespace_def strip_id_or_idx_def
          resolveEnsTextRecord_def idToEnsName_def partsToEnsName_def extractLines_def Let_def)
  have sc: "executionSuggestion (toLowerCase (id_response ''id:core.notes'' ''notes.core.eth'' 0 ''hello''))
       = bulb @ '' Create the appropriate file and execute immediately''"
    by (simp add: executionSuggestion_def toLowerCase_def lower_char_def id_response_def
          show_number_def startsWith_def)
  have sb: "executionSuggestion (toLowerCase (id_response ''id:bash.notes'' ''notes.bash.eth'' 0 ''hello''))
       = bulb @ '' Suggested execution: `bash filename.sh` (replace with your desired filename)''"
    by (simp add: executionSuggestion_def toLowerCase_def lower_char_def id_response_def
          show_number_def startsWith_def)
  have sh: "executionSuggestion (toLowerCase ''hello'')
     = bulb @ '' Create the appropriate file and execute immediately''"
    by (simp add: executionSuggestion_def toLowerCase_def lower_char_def startsWith_def)
  show ?thesis
    by (simp only: handleIdxTool_def core bash sc sb sh Let_def prod.case sum.case fst_conv simp_thms)
qed

end
